theory Spec2Isabelle
  imports Complex_Main "HOL-Library.Sublist"
begin

section \<open>Data model of App.tsx\<close>

text \<open>
  \<^verbatim>\<open>type GameState = {snake:number[], fruit:number, won:boolean, died:boolean}\<close>.
  Cell indices, lengths and the time step are JavaScript numbers that only ever hold
  integers here; they are modelled as \<open>int\<close> so that \<open>length - 1\<close> of an empty array is
  \<open>-1\<close>, as in the source.
\<close>

record GameState =
  snake :: "int list"
  fruit :: int
  won :: bool
  died :: bool

text \<open>
  \<^verbatim>\<open>type TableResult\<close>. The field \<open>gridSize\<close> of the source (the label "3x3") is
  called \<open>gridSizeText\<close> here, because the component state has a cell of the same name.
  \<open>agent\<close> is \<open>nameMap[agent]\<close>, which is \<open>undefined\<close> (here \<open>None\<close>) for a code
  outside the table. \<open>avgMove\<close> is the exact quotient; the source evaluates it in
  double precision and prints it with \<open>toFixed(3)\<close>, which is not modelled.
\<close>

record TableResult =
  agent :: "string option"
  gridSizeText :: string
  train :: string
  moveCount :: int
  fruitCount :: int
  finalLength :: int
  avgMove :: rat
  outcome :: string
  replay :: "GameState list"
  agentCode :: string
  replaySize :: int

datatype error = TypeError

text \<open>Reading \<open>xs[i]\<close>: outside the array JavaScript yields \<open>undefined\<close>.\<close>

definition at_index :: "'a list \<Rightarrow> int \<Rightarrow> 'a option" where
  "at_index xs i = (if 0 \<le> i \<and> i < int (length xs) then Some (xs ! nat i) else None)"

text \<open>Printing an integer, as string concatenation with a number does.\<close>

definition digit_char :: "nat \<Rightarrow> char" where
  "digit_char d = ''0123456789'' ! d"

function show_nat :: "nat \<Rightarrow> string" where
  "show_nat n = (if n < 10 then [digit_char n] else show_nat (n div 10) @ [digit_char (n mod 10)])"
  by pat_completeness auto
termination
  by (relation "measure id") auto

definition show_int :: "int \<Rightarrow> string" where
  "show_int i = (if i < 0 then CHR ''-'' # show_nat (nat (- i)) else show_nat (nat i))"

definition nameMap :: "string \<Rightarrow> string option" where
  "nameMap a =
     (if a = ''a*'' then Some ''A*''
      else if a = ''ql'' then Some ''Q-Learning''
      else if a = ''apx-ql'' then Some ''Approx. QL''
      else if a = ''deep-ql'' then Some ''Deep QL''
      else None)"

section \<open>The history ledger entry: createTableResult\<close>

text \<open>
  \<open>createTableResult\<close> closes over \<open>gridSize\<close> of the render that created it, so the
  grid size is its first argument here. \<open>data[endIndex].snake\<close> throws a TypeError when
  \<open>data[endIndex]\<close> is \<open>undefined\<close>.
\<close>

definition createTableResult ::
  "int \<Rightarrow> string \<Rightarrow> string \<Rightarrow> int \<Rightarrow> GameState list \<Rightarrow> error + TableResult" where
  "createTableResult gridSize agt eps endIndex data =
     (case at_index data endIndex of
        None \<Rightarrow> Inl TypeError
      | Some last_state \<Rightarrow> Inr
          \<lparr> agent = nameMap agt,
            gridSizeText = show_int (gridSize - 2) @ ''x'' @ show_int (gridSize - 2),
            train = eps,
            moveCount = endIndex,
            fruitCount = int (length (snake last_state)) - 1,
            finalLength = int (length (snake last_state)),
            avgMove = of_int endIndex / (of_int (int (length (snake last_state)) - 1) + 1 / 10 ^ 9),
            outcome = (if won last_state then ''Won'' else ''Lost''),
            replay = data,
            agentCode = agt,
            replaySize = gridSize \<rparr>)"

text \<open>
  \<open>loadNewGame\<close> calls it with \<open>endIndex = data.length - 1\<close>; this is \<open>recordRun\<close> of
  the specification.
\<close>

definition recordRun :: "int \<Rightarrow> string \<Rightarrow> string \<Rightarrow> GameState list \<Rightarrow> error + TableResult" where
  "recordRun gridSize agt eps data = createTableResult gridSize agt eps (int (length data) - 1) data"

section \<open>The seed input: ModelSelect.onChange\<close>

text \<open>
  \<^verbatim>\<open>/^\d+$/.test(value)\<close>: one or more characters, each of \<open>0\<close> to \<open>9\<close>.
  \<open>Number(value)\<close> is applied to such strings only; it is modelled by the exact decimal
  value, which is on the same side of 999 as the double the source compares.
\<close>

definition is_digit :: "char \<Rightarrow> bool" where
  "is_digit c = (c \<in> set ''0123456789'')"

definition digits_only :: "string \<Rightarrow> bool" where
  "digits_only v = (v \<noteq> [] \<and> list_all is_digit v)"

definition digit_value :: "char \<Rightarrow> nat" where
  "digit_value c = of_char c - 48"

definition Number :: "string \<Rightarrow> nat" where
  "Number v = foldl (\<lambda>n c. 10 * n + digit_value c) 0 v"

text \<open>
  The handler, as the seed it leaves in the state cell: \<open>setSeed\<close> is called on two of
  its five paths, the three others return with the cell untouched.
\<close>

definition onChange :: "string \<Rightarrow> string \<Rightarrow> string" where
  "onChange seed v =
     (if v = [] then []
      else if \<not> digits_only v then seed
      else if length v > 1 \<and> prefix ''0'' v then seed
      else if Number v > 999 then seed
      else v)"

text \<open>
  The pattern of the specification, \<^verbatim>\<open>^(0|[1-9][0-9]{0,2})$\<close>, written from its
  words, to be compared with the handler.
\<close>

definition spec_seed_pattern :: "string \<Rightarrow> bool" where
  "spec_seed_pattern v =
     (v = ''0'' \<or>
      (case v of [] \<Rightarrow> False
       | c # cs \<Rightarrow> c \<in> set ''123456789'' \<and> length cs \<le> 2 \<and> list_all is_digit cs))"

definition accepted_seed :: "string \<Rightarrow> bool" where
  "accepted_seed v = (v = [] \<or> spec_seed_pattern v)"

section \<open>Rendering a lane: the Grid component\<close>

definition effectiveStep :: "int \<Rightarrow> GameState list \<Rightarrow> int" where
  "effectiveStep timeStep gameStates =
     (if timeStep \<ge> int (length gameStates) then int (length gameStates) - 1 else timeStep)"

text \<open>
  The four class strings of \<open>cellClass\<close>: wall, fruit, and the two grass shades
  (\<open>i % 2\<close> nonzero is the dark one). \<open>gridSize\<close> is 5, 7 or 9 and \<open>i\<close> is not negative,
  where \<open>Math.floor(i / gridSize)\<close> and \<open>i % gridSize\<close> are \<open>div\<close> and \<open>mod\<close>.
  \<open>gameStates[effectiveStep].fruit\<close> throws when the element is \<open>undefined\<close>. (The
  earlier revision, \<open>colorCoord\<close>, reads the fruit of every cell, walls included; the
  snake is looked up for every cell in both.)
\<close>

datatype cell_class = Wall | Fruit | GrassDark | GrassLight

definition cellClass :: "int \<Rightarrow> int \<Rightarrow> GameState list \<Rightarrow> int \<Rightarrow> error + cell_class" where
  "cellClass gridSize timeStep gameStates i =
     (let row = i div gridSize; col = i mod gridSize in
      if row = 0 \<or> row = gridSize - 1 \<or> col = 0 \<or> col = gridSize - 1 then Inr Wall
      else if length gameStates > 0 then
        (case at_index gameStates (effectiveStep timeStep gameStates) of
           None \<Rightarrow> Inl TypeError
         | Some st \<Rightarrow>
             if i = fruit st then Inr Fruit
             else Inr (if i mod 2 \<noteq> 0 then GrassDark else GrassLight))
      else Inr (if i mod 2 \<noteq> 0 then GrassDark else GrassLight))"

text \<open>\<open>Array.prototype.indexOf\<close>: the first position of the value, or \<open>-1\<close>.\<close>

fun indexOf :: "int list \<Rightarrow> int \<Rightarrow> int" where
  "indexOf [] v = - 1"
| "indexOf (x # xs) v =
     (if x = v then 0 else (let k = indexOf xs v in if k = - 1 then - 1 else k + 1))"

definition snakeIndex :: "int \<Rightarrow> GameState list \<Rightarrow> int \<Rightarrow> error + int" where
  "snakeIndex timeStep gameStates i =
     (if length gameStates = 0 then Inr (- 1)
      else (case at_index gameStates (effectiveStep timeStep gameStates) of
              None \<Rightarrow> Inl TypeError
            | Some st \<Rightarrow> Inr (indexOf (snake st) i)))"

text \<open>
  One cell of the grid: its class and, when the cell is on the snake, the position in
  the body that selects the colour of the gradient (\<open>style\<close> is \<open>undefined\<close>, here
  \<open>None\<close>, otherwise). The colour itself is a floating-point lightness and is left out.
\<close>

record cell =
  cls :: cell_class
  style :: "int option"

definition renderCell :: "int \<Rightarrow> int \<Rightarrow> GameState list \<Rightarrow> int \<Rightarrow> error + cell" where
  "renderCell gridSize timeStep gameStates i =
     (case snakeIndex timeStep gameStates i of
        Inl e \<Rightarrow> Inl e
      | Inr k \<Rightarrow>
          (case cellClass gridSize timeStep gameStates i of
             Inl e \<Rightarrow> Inl e
           | Inr c \<Rightarrow> Inr \<lparr> cls = c, style = (if k \<noteq> - 1 then Some k else None) \<rparr>))"

fun collect :: "(error + 'a) list \<Rightarrow> error + 'a list" where
  "collect [] = Inr []"
| "collect (x # xs) =
     (case x of
        Inl e \<Rightarrow> Inl e
      | Inr v \<Rightarrow> (case collect xs of Inl e \<Rightarrow> Inl e | Inr vs \<Rightarrow> Inr (v # vs)))"

definition generateGrid :: "int \<Rightarrow> int \<Rightarrow> GameState list \<Rightarrow> error + cell list" where
  "generateGrid gridSize timeStep gameStates =
     collect (map (\<lambda>n. renderCell gridSize timeStep gameStates (int n))
                  [0 ..< nat (gridSize * gridSize)])"

text \<open>What the component shows: the cells, "Moves" and "Fruits".\<close>

record grid_view =
  cells :: "cell list"
  moves :: int
  fruits :: int

definition Grid :: "int \<Rightarrow> int \<Rightarrow> GameState list \<Rightarrow> error + grid_view" where
  "Grid gridSize timeStep gameStates =
     (case (if length gameStates = 0 then Inr 0
            else (case at_index gameStates (effectiveStep timeStep gameStates) of
                    None \<Rightarrow> Inl TypeError
                  | Some st \<Rightarrow> Inr (int (length (snake st)) - 1))) of
        Inl e \<Rightarrow> Inl e
      | Inr eaten \<Rightarrow>
          (case generateGrid gridSize timeStep gameStates of
             Inl e \<Rightarrow> Inl e
           | Inr g \<Rightarrow> Inr \<lparr> cells = g, moves = effectiveStep timeStep gameStates,
                            fruits = eaten \<rparr>))"

section \<open>The state of the App component\<close>

text \<open>
  The interval created by the playback effect. Its callback is a closure of the render in
  which the effect ran: \<open>gameStates1\<close> and \<open>gameStates2\<close> in it are the arrays of that
  render, and the interval is re-created only when \<open>playing\<close> or \<open>speed\<close> changes (the
  dependency array of the effect is \<open>[playing, speed]\<close>). The record keeps what the
  callback reads from them, the two lengths, and the period \<open>500 / speed\<close>.
\<close>

record timer =
  len1 :: int
  len2 :: int
  intervalMs :: rat

text \<open>
  A call of \<open>loadNewGame\<close> is suspended at each \<open>await\<close>. It is a closure too: the
  configuration it uses after the first \<open>await\<close> is the one of the render in which the
  button was clicked.
\<close>

record closure =
  cl_agent1 :: string
  cl_eps1 :: string
  cl_seed1 :: string
  cl_agent2 :: string
  cl_eps2 :: string
  cl_seed2 :: string
  cl_gridSize :: int
  cl_twoGrids :: bool

datatype pending_load = Await1 closure | Await2 closure "GameState list"

text \<open>The JSON body that \<open>sendRequest\<close> posts.\<close>

record request =
  req_agent :: string
  req_eps :: string
  req_grid_size :: int
  req_seed :: string

text \<open>
  The sixteen \<open>useState\<close> cells of \<open>App\<close>, followed by what lives outside them: the
  running interval, the suspended loads, and the requests sent so far (newest first).
\<close>

record app =
  gridSize :: int
  twoGrids :: bool
  gameStates1 :: "GameState list"
  gameStates2 :: "GameState list"
  agent1 :: string
  agent2 :: string
  eps1 :: string
  eps2 :: string
  seed1 :: string
  seed2 :: string
  playing :: bool
  loading :: bool
  speed :: int
  tableRes :: "TableResult list"
  timeStep :: int
  serverAwake :: bool
  interval :: "timer option"
  pending :: "pending_load list"
  requests :: "request list"

text \<open>The state after the first render and its mount effects.\<close>

definition init :: app where
  "init = \<lparr> gridSize = 5, twoGrids = False, gameStates1 = [], gameStates2 = [],
            agent1 = ''a*'', agent2 = ''a*'', eps1 = ''N/A'', eps2 = ''N/A'',
            seed1 = [], seed2 = [], playing = False, loading = False, speed = 1,
            tableRes = [], timeStep = 0, serverAwake = True,
            interval = None, pending = [], requests = [] \<rparr>"

datatype lane = Lane1 | Lane2

definition agent_of :: "lane \<Rightarrow> app \<Rightarrow> string" where
  "agent_of l s = (case l of Lane1 \<Rightarrow> agent1 s | Lane2 \<Rightarrow> agent2 s)"


definition seed_of :: "lane \<Rightarrow> app \<Rightarrow> string" where
  "seed_of l s = (case l of Lane1 \<Rightarrow> seed1 s | Lane2 \<Rightarrow> seed2 s)"

definition setAgent :: "lane \<Rightarrow> string \<Rightarrow> app \<Rightarrow> app" where
  "setAgent l v s = (case l of Lane1 \<Rightarrow> s\<lparr>agent1 := v\<rparr> | Lane2 \<Rightarrow> s\<lparr>agent2 := v\<rparr>)"

definition setEps :: "lane \<Rightarrow> string \<Rightarrow> app \<Rightarrow> app" where
  "setEps l v s = (case l of Lane1 \<Rightarrow> s\<lparr>eps1 := v\<rparr> | Lane2 \<Rightarrow> s\<lparr>eps2 := v\<rparr>)"

definition setSeed :: "lane \<Rightarrow> string \<Rightarrow> app \<Rightarrow> app" where
  "setSeed l v s = (case l of Lane1 \<Rightarrow> s\<lparr>seed1 := v\<rparr> | Lane2 \<Rightarrow> s\<lparr>seed2 := v\<rparr>)"

section \<open>Event handlers\<close>

definition resetBoard :: "app \<Rightarrow> app" where
  "resetBoard s = s\<lparr>playing := False, loading := False, gameStates1 := [],
                     gameStates2 := [], timeStep := 0\<rparr>"

definition maxStep :: "app \<Rightarrow> int" where
  "maxStep s = max (int (length (gameStates1 s))) (int (length (gameStates2 s))) - 1"

definition canStepForward :: "app \<Rightarrow> bool" where
  "canStepForward s = (timeStep s < maxStep s)"

text \<open>The two selects and the seed input of \<open>ModelSelect\<close>, and the grid size select.\<close>

definition onAgentSelect :: "lane \<Rightarrow> string \<Rightarrow> app \<Rightarrow> app" where
  "onAgentSelect l v s = setAgent l v (resetBoard s)"

definition onEpsSelect :: "lane \<Rightarrow> string \<Rightarrow> app \<Rightarrow> app" where
  "onEpsSelect l v s = setEps l v (resetBoard s)"

definition onSeedInput :: "lane \<Rightarrow> string \<Rightarrow> app \<Rightarrow> app" where
  "onSeedInput l v s = setSeed l (onChange (seed_of l s) v) s"

definition onGridSizeSelect :: "int \<Rightarrow> app \<Rightarrow> app" where
  "onGridSizeSelect v s = (resetBoard s)\<lparr>gridSize := v\<rparr>"

text \<open>The player controls.\<close>

definition onBack :: "app \<Rightarrow> app" where
  "onBack s = s\<lparr>playing := False,
                 timeStep := (if timeStep s > 0 then timeStep s - 1 else timeStep s)\<rparr>"

definition onPlayPause :: "app \<Rightarrow> app" where
  "onPlayPause s = s\<lparr>playing := \<not> playing s\<rparr>"

definition onRestart :: "app \<Rightarrow> app" where
  "onRestart s = s\<lparr>playing := False, timeStep := 0\<rparr>"

text \<open>The middle button is Play/Pause while \<open>canStepForward\<close>, and Restart otherwise.\<close>

definition onMiddleButton :: "app \<Rightarrow> app" where
  "onMiddleButton s = (if canStepForward s then onPlayPause s else onRestart s)"

definition onForward :: "app \<Rightarrow> app" where
  "onForward s = s\<lparr>playing := False,
                    timeStep := (if timeStep s < maxStep s then timeStep s + 1 else timeStep s)\<rparr>"

definition onSpeed :: "app \<Rightarrow> app" where
  "onSpeed s = s\<lparr>speed := (if speed s = 4 then 1 else speed s * 2)\<rparr>"

definition onAddRemoveGrid :: "app \<Rightarrow> app" where
  "onAddRemoveGrid s = (resetBoard s)\<lparr>twoGrids := \<not> twoGrids s\<rparr>"

text \<open>The two replay buttons of a row \<open>res\<close> of the history table.\<close>

definition onReplayGrid1 :: "TableResult \<Rightarrow> app \<Rightarrow> app" where
  "onReplayGrid1 res s =
     s\<lparr>playing := False,
       gameStates2 := (if gridSize s \<noteq> replaySize res then replay res else gameStates2 s),
       gridSize := replaySize res,
       agent1 := agentCode res,
       eps1 := train res,
       gameStates1 := replay res,
       timeStep := 0\<rparr>"

definition onReplayGrid2 :: "TableResult \<Rightarrow> app \<Rightarrow> app" where
  "onReplayGrid2 res s =
     s\<lparr>playing := False,
       gameStates1 := (if gridSize s \<noteq> replaySize res then replay res else gameStates1 s),
       gridSize := replaySize res,
       twoGrids := True,
       agent2 := agentCode res,
       eps2 := train res,
       gameStates2 := replay res,
       timeStep := 0\<rparr>"

text \<open>
  The callback of the interval: the updater passed to \<open>setTimeStep\<close>, with the lengths the
  closure holds.
\<close>

definition tick :: "timer \<Rightarrow> app \<Rightarrow> app" where
  "tick t s =
     (if timeStep s \<ge> max (len1 t) (len2 t) - 1 then s\<lparr>playing := False\<rparr>
      else s\<lparr>timeStep := timeStep s + 1\<rparr>)"

section \<open>loadNewGame\<close>

text \<open>
  The click sets \<open>loading\<close>, sends the first request and suspends. Each response resumes
  the call: a response without a last element makes \<open>createTableResult\<close> throw, which
  ends the call at that point; otherwise the row is put in front of the table, and the
  call either sends the request of the second lane and suspends again, or writes the lanes
  and starts playback.
\<close>

definition capture :: "app \<Rightarrow> closure" where
  "capture s = \<lparr> cl_agent1 = agent1 s, cl_eps1 = eps1 s, cl_seed1 = seed1 s,
                 cl_agent2 = agent2 s, cl_eps2 = eps2 s, cl_seed2 = seed2 s,
                 cl_gridSize = gridSize s, cl_twoGrids = twoGrids s \<rparr>"

definition onRunNewGame :: "app \<Rightarrow> app" where
  "onRunNewGame s =
     s\<lparr>loading := True,
       pending := pending s @ [Await1 (capture s)],
       requests := \<lparr> req_agent = agent1 s, req_eps = eps1 s,
                     req_grid_size = gridSize s - 2, req_seed = seed1 s \<rparr> # requests s\<rparr>"

definition finishLoad :: "GameState list \<Rightarrow> app \<Rightarrow> app" where
  "finishLoad data1 s = s\<lparr>gameStates1 := data1, loading := False, timeStep := 0, playing := True\<rparr>"

definition remove_at :: "nat \<Rightarrow> 'a list \<Rightarrow> 'a list" where
  "remove_at k xs = take k xs @ drop (Suc k) xs"

definition onResponse :: "nat \<Rightarrow> GameState list \<Rightarrow> app \<Rightarrow> app" where
  "onResponse k data s =
     (case pending s ! k of
        Await1 c \<Rightarrow>
          (case createTableResult (cl_gridSize c) (cl_agent1 c) (cl_eps1 c)
                  (int (length data) - 1) data of
             Inl e \<Rightarrow> s\<lparr>pending := remove_at k (pending s)\<rparr>
           | Inr result1 \<Rightarrow>
               if cl_twoGrids c then
                 s\<lparr>tableRes := result1 # tableRes s,
                   pending := (pending s)[k := Await2 c data],
                   requests := \<lparr> req_agent = cl_agent2 c, req_eps = cl_eps2 c,
                                 req_grid_size = cl_gridSize c - 2,
                                 req_seed = cl_seed2 c \<rparr> # requests s\<rparr>
               else
                 finishLoad data
                   (s\<lparr>tableRes := result1 # tableRes s, pending := remove_at k (pending s)\<rparr>))
      | Await2 c data1 \<Rightarrow>
          (case createTableResult (cl_gridSize c) (cl_agent2 c) (cl_eps2 c)
                  (int (length data) - 1) data of
             Inl e \<Rightarrow> s\<lparr>pending := remove_at k (pending s)\<rparr>
           | Inr result2 \<Rightarrow>
               finishLoad data1
                 (s\<lparr>tableRes := result2 # tableRes s, gameStates2 := data,
                    pending := remove_at k (pending s)\<rparr>)))"

section \<open>Effects\<close>

text \<open>\<open>agent.includes("deep")\<close>: the pattern occurs somewhere in the string.\<close>

fun includes_str :: "string \<Rightarrow> string \<Rightarrow> bool" where
  "includes_str [] p = (p = [])"
| "includes_str (c # cs) p = (prefix p (c # cs) \<or> includes_str cs p)"

text \<open>
  The effect of \<open>ModelSelect\<close>, with dependency array \<open>[agent]\<close>, as the value it leaves
  in the \<open>eps\<close> cell of its lane.
\<close>

definition modelSelectEffect :: "string \<Rightarrow> string \<Rightarrow> string" where
  "modelSelectEffect agt eps =
     (if agt = ''a*'' then ''N/A''
      else if includes_str agt ''deep'' \<and> eps \<notin> set [''1k'', ''3k'', ''5k''] then ''1k''
      else if eps \<notin> set [''50k'', ''75k'', ''100k''] then ''50k''
      else eps)"

text \<open>
  The playback effect of \<open>App\<close>, with dependency array \<open>[playing, speed]\<close>. React first
  runs the cleanup of the previous run, which clears the old interval.
\<close>

definition playbackEffect :: "app \<Rightarrow> app" where
  "playbackEffect s =
     (if \<not> playing s \<or> length (gameStates1 s) = 0 then s\<lparr>playing := False, interval := None\<rparr>
      else s\<lparr>interval := Some \<lparr> len1 = int (length (gameStates1 s)),
                                 len2 = int (length (gameStates2 s)),
                                 intervalMs = 500 / of_int (speed s) \<rparr>\<rparr>)"

text \<open>
  After a handler has turned the committed state \<open>old\<close> into \<open>new\<close>, React renders and runs
  the effects whose dependencies differ from those of the previous render. The first
  \<open>ModelSelect\<close> is always mounted; the second one is mounted while \<open>twoGrids\<close> holds,
  and an effect also runs when its component mounts.
\<close>

definition settle :: "app \<Rightarrow> app \<Rightarrow> app" where
  "settle old new =
     (let s1 = (if agent1 new \<noteq> agent1 old
                then new\<lparr>eps1 := modelSelectEffect (agent1 new) (eps1 new)\<rparr> else new);
          s2 = (if twoGrids new \<and> (\<not> twoGrids old \<or> agent2 new \<noteq> agent2 old)
                then s1\<lparr>eps2 := modelSelectEffect (agent2 new) (eps2 new)\<rparr> else s1)
      in if playing new \<noteq> playing old \<or> speed new \<noteq> speed old then playbackEffect s2 else s2)"

section \<open>Events\<close>

text \<open>
  What can happen to the page: the user operates a control that is on the screen, the
  interval fires, or a response arrives for a suspended load. The agent options are those
  of \<open>src/App.tsx\<close>; the later revision comments the second one out.
\<close>

datatype event =
    SelectAgent lane string
  | SelectEps lane string
  | SeedInput lane string
  | SelectGridSize int
  | RunNewGame
  | Response nat "GameState list"
  | Back
  | MiddleButton
  | Forward
  | Speed
  | AddRemoveGrid
  | ReplayGrid1 nat
  | ReplayGrid2 nat
  | Tick

definition agentOptions :: "string list" where
  "agentOptions = [''a*'', ''ql'', ''apx-ql'', ''deep-ql'']"

definition epsOptions :: "string \<Rightarrow> string list" where
  "epsOptions agt =
     (if agt = ''a*'' then []
      else if includes_str agt ''deep'' then [''1k'', ''3k'', ''5k'']
      else [''50k'', ''75k'', ''100k''])"

definition gridSizeOptions :: "int list" where
  "gridSizeOptions = [5, 7, 9]"

definition lane_shown :: "lane \<Rightarrow> app \<Rightarrow> bool" where
  "lane_shown l s = (case l of Lane1 \<Rightarrow> True | Lane2 \<Rightarrow> twoGrids s)"

fun handle :: "event \<Rightarrow> app \<Rightarrow> app" where
  "handle (SelectAgent l v) s =
     (if lane_shown l s \<and> v \<in> set agentOptions then onAgentSelect l v s else s)"
| "handle (SelectEps l v) s =
     (if lane_shown l s \<and> v \<in> set (epsOptions (agent_of l s)) then onEpsSelect l v s else s)"
| "handle (SeedInput l v) s = (if lane_shown l s then onSeedInput l v s else s)"
| "handle (SelectGridSize v) s = (if v \<in> set gridSizeOptions then onGridSizeSelect v s else s)"
| "handle RunNewGame s = onRunNewGame s"
| "handle (Response k data) s = (if k < length (pending s) then onResponse k data s else s)"
| "handle Back s = onBack s"
| "handle MiddleButton s = onMiddleButton s"
| "handle Forward s = onForward s"
| "handle Speed s = onSpeed s"
| "handle AddRemoveGrid s = onAddRemoveGrid s"
| "handle (ReplayGrid1 k) s = (if k < length (tableRes s) then onReplayGrid1 (tableRes s ! k) s else s)"
| "handle (ReplayGrid2 k) s = (if k < length (tableRes s) then onReplayGrid2 (tableRes s ! k) s else s)"
| "handle Tick s = (case interval s of None \<Rightarrow> s | Some t \<Rightarrow> tick t s)"

definition dispatch :: "event \<Rightarrow> app \<Rightarrow> app" where
  "dispatch ev s = settle s (handle ev s)"

fun run :: "event list \<Rightarrow> app \<Rightarrow> app" where
  "run [] s = s"
| "run (ev # evs) s = run evs (dispatch ev s)"

section \<open>Invariants of the reachable states\<close>

definition closure_of :: "pending_load \<Rightarrow> closure" where
  "closure_of p = (case p of Await1 c \<Rightarrow> c | Await2 c d \<Rightarrow> c)"

text \<open>Every seed in a state cell, in a suspended load and in a request sent is accepted.\<close>

definition seeds_accepted :: "app \<Rightarrow> bool" where
  "seeds_accepted s =
     (accepted_seed (seed1 s) \<and> accepted_seed (seed2 s)
      \<and> list_all (\<lambda>r. accepted_seed (req_seed r)) (requests s)
      \<and> list_all (\<lambda>p. accepted_seed (cl_seed1 (closure_of p))
                      \<and> accepted_seed (cl_seed2 (closure_of p))) (pending s))"

text \<open>
  The interval runs exactly while \<open>playing\<close>, and then lane 1 is not empty; a load
  suspended at its second \<open>await\<close> holds a first response that is not empty; the speed
  is 1, 2 or 4.
\<close>

definition playback_inv :: "app \<Rightarrow> bool" where
  "playback_inv s =
     ((playing s \<longrightarrow> gameStates1 s \<noteq> [])
      \<and> (interval s = None \<longleftrightarrow> \<not> playing s)
      \<and> speed s \<in> {1, 2, 4}
      \<and> list_all (\<lambda>p. case p of Await1 c \<Rightarrow> True | Await2 c d \<Rightarrow> d \<noteq> []) (pending s))"


section \<open>Example responses\<close>

text \<open>
  The response of the specification's end-to-end scenario: two snapshots, the second one
  \<open>{snake:[12,11], fruit:6, won:false, died:true}\<close>; and a longer and a shorter one.
\<close>

definition start_snapshot :: GameState where
  "start_snapshot = \<lparr> snake = [12], fruit = 11, won = False, died = False \<rparr>"

definition scenario_response :: "GameState list" where
  "scenario_response =
     [start_snapshot, \<lparr> snake = [12, 11], fruit = 6, won = False, died = True \<rparr>]"

definition longer_response :: "GameState list" where
  "longer_response = start_snapshot # scenario_response"

definition single_response :: "GameState list" where
  "single_response = [start_snapshot]"

section \<open>Ledger entries are summaries of the terminal snapshot\<close>

lemma at_index_last: "data \<noteq> [] \<Longrightarrow> at_index data (int (length data) - 1) = Some (last data)"
  by (simp add: at_index_def last_conv_nth nat_diff_distrib')

text \<open>
  Claim C5. For a response with at least one snapshot, the row recorded for it has
  \<open>moveCount\<close> equal to the index of the last snapshot, \<open>finalLength\<close> equal to the
  length of the last snapshot's snake, \<open>fruitCount\<close> one less, \<open>outcome\<close> "Won" exactly
  when the last snapshot's \<open>won\<close> flag is set and "Lost" otherwise, and an average of
  \<open>moveCount\<close> divided by \<open>fruitCount\<close> plus \<open>1e-9\<close>. A response of two snapshots that
  ends in \<open>{snake:[12,11], fruit:6, won:false, died:true}\<close> gives \<open>moveCount = 1\<close>,
  \<open>fruitCount = 1\<close>, \<open>finalLength = 2\<close> and \<open>outcome = "Lost"\<close>.
\<close>

theorem recordRun_summary:
  assumes "data \<noteq> []"
  shows "(\<exists>r. recordRun g a e data = Inr r
            \<and> moveCount r = int (length data) - 1
            \<and> finalLength r = int (length (snake (last data)))
            \<and> fruitCount r = int (length (snake (last data))) - 1
            \<and> outcome r = (if won (last data) then ''Won'' else ''Lost'')
            \<and> avgMove r = of_int (moveCount r) / (of_int (fruitCount r) + 1 / 10 ^ 9))
       \<and> (\<forall>first. \<exists>r. recordRun g a e
               [first, \<lparr>snake = [12, 11], fruit = 6, won = False, died = True\<rparr>] = Inr r
            \<and> moveCount r = 1 \<and> fruitCount r = 1 \<and> finalLength r = 2 \<and> outcome r = ''Lost'')"
proof -
  have "at_index [first, l] (int (length [first, l]) - 1) = Some l" for first l :: GameState
    by (simp add: at_index_def)
  then show ?thesis
    using assms by (simp add: recordRun_def createTableResult_def at_index_last)
qed

theorem recordRun_summary_witness:
  "\<exists>r. recordRun 5 ''a*'' ''N/A''
          [\<lparr>snake = [12], fruit = 11, won = False, died = False\<rparr>,
           \<lparr>snake = [12, 11], fruit = 6, won = False, died = True\<rparr>] = Inr r
        \<and> moveCount r = 1 \<and> finalLength r = 2 \<and> fruitCount r = 1 \<and> outcome r = ''Lost''
        \<and> avgMove r = 1000000000 / 1000000001"
  using recordRun_summary [of "[\<lparr>snake = [12], fruit = 11, won = False, died = False\<rparr>,
           \<lparr>snake = [12, 11], fruit = 6, won = False, died = True\<rparr>]" 5 "''a*''" "''N/A''"]
  by auto

section \<open>The seed handler against the pattern of the specification\<close>

lemma Number_foldl_ge: "a \<le> foldl (\<lambda>n c. 10 * n + digit_value c) a cs"
proof (induction cs arbitrary: a)
  case Nil
  show ?case by simp
next
  case (Cons c cs)
  have "a \<le> 10 * a + digit_value c" by simp
  also have "\<dots> \<le> foldl (\<lambda>n c. 10 * n + digit_value c) (10 * a + digit_value c) cs"
    by (rule Cons.IH)
  finally show ?case by simp
qed

lemma is_digit_cases:
  "is_digit c \<longleftrightarrow> c = CHR ''0'' \<or> c \<in> set ''123456789''"
  by (auto simp add: is_digit_def)

lemma digit_value_le: "is_digit c \<Longrightarrow> digit_value c \<le> 9"
  by (auto simp add: is_digit_def digit_value_def)

lemma digit_value_pos: "c \<in> set ''123456789'' \<Longrightarrow> 1 \<le> digit_value c"
  by (auto simp add: digit_value_def)

lemma Number_four_digits:
  assumes "c1 \<in> set ''123456789''"
  shows "999 < Number (c1 # c2 # c3 # c4 # cs)"
proof -
  have "1000 \<le> 10 * (10 * (10 * digit_value c1 + digit_value c2) + digit_value c3) + digit_value c4"
    using digit_value_pos [OF assms] by simp
  also have "\<dots> \<le> Number (c1 # c2 # c3 # c4 # cs)"
    unfolding Number_def using Number_foldl_ge by simp
  finally show ?thesis by simp
qed

lemma Number_three_digits:
  assumes "list_all is_digit v" "length v \<le> 3"
  shows "Number v \<le> 999"
proof -
  consider "v = []" | c1 where "v = [c1]" | c1 c2 where "v = [c1, c2]"
    | c1 c2 c3 where "v = [c1, c2, c3]"
    using assms(2) by (cases v rule: list.exhaust; simp; metis (no_types) Suc_le_mono length_0_conv length_Suc_conv le_zero_eq numeral_3_eq_3 list.exhaust list.size(4) Suc_eq_plus1)
  then show ?thesis
  proof cases
    case 1 then show ?thesis by (simp add: Number_def)
  next
    case 2 then show ?thesis using assms(1) digit_value_le [of c1] by (simp add: Number_def)
  next
    case 3 then show ?thesis using assms(1) digit_value_le [of c1] digit_value_le [of c2]
      by (simp add: Number_def)
  next
    case 4 then show ?thesis
      using assms(1) digit_value_le [of c1] digit_value_le [of c2] digit_value_le [of c3]
      by (simp add: Number_def)
  qed
qed


lemma spec_seed_pattern_digits: "spec_seed_pattern v \<Longrightarrow> digits_only v \<and> length v \<le> 3"
  by (cases v) (auto simp add: spec_seed_pattern_def digits_only_def is_digit_def)

lemma spec_seed_pattern_no_leading_zero:
  "spec_seed_pattern v \<Longrightarrow> \<not> (length v > 1 \<and> prefix ''0'' v)"
  by (cases v) (auto simp add: spec_seed_pattern_def)

lemma spec_seed_pattern_value: "spec_seed_pattern v \<Longrightarrow> Number v \<le> 999"
  using spec_seed_pattern_digits [of v] Number_three_digits [of v]
  by (simp add: digits_only_def)

lemma long_list: "\<not> length cs \<le> 2 \<Longrightarrow> \<exists>c2 c3 c4 rest. cs = c2 # c3 # c4 # rest"
  by (cases cs; simp; cases "tl cs"; simp; cases "tl (tl cs)"; simp)

lemma onChange_passes_pattern:
  assumes "v \<noteq> []" "digits_only v" "\<not> (length v > 1 \<and> prefix ''0'' v)" "Number v \<le> 999"
  shows "spec_seed_pattern v"
proof -
  from assms(1) obtain c cs where v: "v = c # cs" by (cases v) auto
  from assms(2) v have dc: "is_digit c" and dcs: "list_all is_digit cs"
    by (simp_all add: digits_only_def)
  show ?thesis
  proof (cases "c = CHR ''0''")
    case True
    with assms(3) v have "cs = []" by simp
    with True v show ?thesis by (simp add: spec_seed_pattern_def)
  next
    case False
    with dc have nz: "c \<in> set ''123456789''" by (simp add: is_digit_cases)
    have "length cs \<le> 2"
    proof (rule ccontr)
      assume "\<not> length cs \<le> 2"
      then obtain c2 c3 c4 rest where "cs = c2 # c3 # c4 # rest" using long_list by blast
      with v nz have "999 < Number v" by (simp add: Number_four_digits)
      with assms(4) show False by simp
    qed
    with nz dcs v show ?thesis by (simp add: spec_seed_pattern_def)
  qed
qed

lemma onChange_accepts: "onChange seed v = (if accepted_seed v then v else seed)"
proof (cases "v = []")
  case True
  then show ?thesis by (simp add: onChange_def accepted_seed_def)
next
  case False
  show ?thesis
  proof (cases "spec_seed_pattern v")
    case True
    with False show ?thesis
      using spec_seed_pattern_digits [of v] spec_seed_pattern_no_leading_zero [of v]
        spec_seed_pattern_value [of v]
      by (auto simp add: onChange_def accepted_seed_def)
  next
    case np: False
    with False onChange_passes_pattern [of v] show ?thesis
      by (auto simp add: onChange_def accepted_seed_def)
  qed
qed

section \<open>What the effects leave alone\<close>

lemma settle_frame:
  "gridSize (settle old new) = gridSize new"
  "twoGrids (settle old new) = twoGrids new"
  "gameStates1 (settle old new) = gameStates1 new"
  "gameStates2 (settle old new) = gameStates2 new"
  "agent1 (settle old new) = agent1 new"
  "agent2 (settle old new) = agent2 new"
  "seed1 (settle old new) = seed1 new"
  "seed2 (settle old new) = seed2 new"
  "loading (settle old new) = loading new"
  "speed (settle old new) = speed new"
  "tableRes (settle old new) = tableRes new"
  "timeStep (settle old new) = timeStep new"
  "serverAwake (settle old new) = serverAwake new"
  "pending (settle old new) = pending new"
  "requests (settle old new) = requests new"
  by (simp_all add: settle_def playbackEffect_def Let_def)

lemma settle_playing:
  "playing (settle old new) =
     (if playing new \<noteq> playing old \<or> speed new \<noteq> speed old
      then playing new \<and> gameStates1 new \<noteq> [] else playing new)"
  by (auto simp add: settle_def playbackEffect_def Let_def)

lemma settle_interval:
  "interval (settle old new) =
     (if playing new \<noteq> playing old \<or> speed new \<noteq> speed old
      then (if playing new \<and> gameStates1 new \<noteq> []
            then Some \<lparr> len1 = int (length (gameStates1 new)),
                        len2 = int (length (gameStates2 new)),
                        intervalMs = 500 / of_int (speed new) \<rparr>
            else None)
      else interval new)"
  by (auto simp add: settle_def playbackEffect_def Let_def)

lemma settle_eps1:
  "eps1 (settle old new) =
     (if agent1 new \<noteq> agent1 old then modelSelectEffect (agent1 new) (eps1 new) else eps1 new)"
  by (simp add: settle_def playbackEffect_def Let_def)

lemma settle_eps2:
  "eps2 (settle old new) =
     (if twoGrids new \<and> (\<not> twoGrids old \<or> agent2 new \<noteq> agent2 old)
      then modelSelectEffect (agent2 new) (eps2 new) else eps2 new)"
  by (auto simp add: settle_def playbackEffect_def Let_def)

lemmas handler_defs =
  onAgentSelect_def onEpsSelect_def onSeedInput_def onGridSizeSelect_def onRunNewGame_def
  onResponse_def onBack_def onMiddleButton_def onPlayPause_def onRestart_def onForward_def
  onSpeed_def onAddRemoveGrid_def onReplayGrid1_def onReplayGrid2_def tick_def
  resetBoard_def finishLoad_def setAgent_def setEps_def setSeed_def

lemma timeStep_handle: "0 \<le> timeStep s \<Longrightarrow> 0 \<le> timeStep (handle ev s)"
  by (cases ev)
     (auto simp add: handler_defs split: lane.splits pending_load.splits sum.splits option.splits)

lemma timeStep_dispatch: "0 \<le> timeStep s \<Longrightarrow> 0 \<le> timeStep (dispatch ev s)"
  by (simp add: dispatch_def settle_frame timeStep_handle)

lemma timeStep_run: "0 \<le> timeStep s \<Longrightarrow> 0 \<le> timeStep (run evs s)"
  by (induction evs arbitrary: s) (simp_all add: timeStep_dispatch)

section \<open>Seeds in every reachable state\<close>

lemma list_all_remove_at: "list_all P xs \<Longrightarrow> list_all P (remove_at k xs)"
  by (auto simp add: remove_at_def list_all_iff dest: in_set_takeD in_set_dropD)

lemma list_all_update: "list_all P xs \<Longrightarrow> P y \<Longrightarrow> list_all P (xs[k := y])"
  by (auto simp add: list_all_iff dest!: subsetD [OF set_update_subset_insert])

lemma list_all_nth: "list_all P xs \<Longrightarrow> k < length xs \<Longrightarrow> P (xs ! k)"
  by (simp add: list_all_length)

lemma seeds_onResponse:
  assumes "seeds_accepted s" "k < length (pending s)"
  shows "seeds_accepted (onResponse k data s)"
proof -
  let ?P = "\<lambda>p. accepted_seed (cl_seed1 (closure_of p)) \<and> accepted_seed (cl_seed2 (closure_of p))"
  from assms have all: "list_all ?P (pending s)" by (simp add: seeds_accepted_def)
  from all assms(2) have here: "?P (pending s ! k)" by (rule list_all_nth)
  have rm: "list_all ?P (remove_at k (pending s))" using all by (rule list_all_remove_at)
  show ?thesis
  proof (cases "pending s ! k")
    case (Await1 c)
    with here have c: "accepted_seed (cl_seed1 c)" "accepted_seed (cl_seed2 c)"
      by (simp_all add: closure_of_def)
    have "list_all ?P ((pending s)[k := Await2 c data])"
      using all c by (intro list_all_update) (simp_all add: closure_of_def)
    with Await1 assms(1) rm c show ?thesis
      by (simp add: onResponse_def finishLoad_def seeds_accepted_def split: sum.splits)
  next
    case (Await2 c d)
    with assms(1) rm show ?thesis
      by (simp add: onResponse_def finishLoad_def seeds_accepted_def split: sum.splits)
  qed
qed

lemma accepted_onChange: "accepted_seed seed \<Longrightarrow> accepted_seed (onChange seed v)"
  by (simp add: onChange_accepts)

lemma seeds_handle: "seeds_accepted s \<Longrightarrow> seeds_accepted (handle ev s)"
proof (cases ev)
  case (Response k data)
  assume "seeds_accepted s"
  with Response show ?thesis by (simp add: seeds_onResponse)
next
  case (SeedInput l v)
  assume "seeds_accepted s"
  with SeedInput show ?thesis
    by (cases l) (simp_all add: seeds_accepted_def onSeedInput_def setSeed_def seed_of_def accepted_onChange)
next
  case RunNewGame
  assume "seeds_accepted s"
  with RunNewGame show ?thesis
    by (simp add: seeds_accepted_def onRunNewGame_def capture_def closure_of_def)
qed (auto simp add: seeds_accepted_def handler_defs split: lane.splits option.splits)

lemma seeds_dispatch: "seeds_accepted s \<Longrightarrow> seeds_accepted (dispatch ev s)"
  using seeds_handle [of s ev] by (simp add: dispatch_def seeds_accepted_def settle_frame)

lemma seeds_run: "seeds_accepted s \<Longrightarrow> seeds_accepted (run evs s)"
  by (induction evs arbitrary: s) (simp_all add: seeds_dispatch)

lemma seeds_init: "seeds_accepted init"
  by (simp add: seeds_accepted_def init_def accepted_seed_def)

lemma seed_of_SeedInput:
  "lane_shown l s \<Longrightarrow> seed_of l (dispatch (SeedInput l v) s) = (if accepted_seed v then v else seed_of l s)"
  by (cases l) (simp_all add: dispatch_def settle_frame onSeedInput_def setSeed_def seed_of_def onChange_accepts)

text \<open>
  Claim C7. The seed handler stores the entry exactly when it is empty or matches
  \<^verbatim>\<open>^(0|[1-9][0-9]{0,2})$\<close>, a digit string of value at most 999, and leaves the
  stored seed as it was otherwise. So after every sequence of events, whatever was typed,
  both seed cells hold accepted values, and so does the seed of every request that was
  sent.
\<close>

theorem seed_input_accepts_only_valid:
  "onChange seed v = (if accepted_seed v then v else seed)
   \<and> (accepted_seed v \<longleftrightarrow> v = [] \<or> spec_seed_pattern v)
   \<and> (spec_seed_pattern v \<longrightarrow> digits_only v \<and> Number v \<le> 999)
   \<and> (lane_shown l s \<longrightarrow>
        seed_of l (dispatch (SeedInput l v) s) = (if accepted_seed v then v else seed_of l s))
   \<and> accepted_seed (seed1 (run evs init))
   \<and> accepted_seed (seed2 (run evs init))
   \<and> (\<forall>r \<in> set (requests (run evs init)). accepted_seed (req_seed r))"
proof -
  have "seeds_accepted (run evs init)" using seeds_init by (rule seeds_run)
  then have "accepted_seed (seed1 (run evs init))" "accepted_seed (seed2 (run evs init))"
    "\<forall>r \<in> set (requests (run evs init)). accepted_seed (req_seed r)"
    by (simp_all add: seeds_accepted_def list_all_iff)
  moreover have "spec_seed_pattern v \<longrightarrow> digits_only v \<and> Number v \<le> 999"
    using spec_seed_pattern_digits [of v] spec_seed_pattern_value [of v] by blast
  ultimately show ?thesis
    using onChange_accepts [of seed v] seed_of_SeedInput [of l s v]
    by (simp add: accepted_seed_def)
qed

theorem seed_input_accepts_only_valid_witness:
  "onChange ''42'' ''007'' = ''42'' \<and> onChange ''42'' ''4200'' = ''42''
   \<and> onChange ''42'' ''4x'' = ''42'' \<and> onChange ''42'' ''999'' = ''999''
   \<and> spec_seed_pattern ''999'' \<and> Number ''999'' = 999
   \<and> seed_of Lane1 (dispatch (SeedInput Lane1 ''999'') init) = ''999''
   \<and> seed1 (run [SeedInput Lane1 ''42'', SeedInput Lane1 ''4x'', RunNewGame] init) = ''42''
   \<and> map req_seed (requests (run [SeedInput Lane1 ''42'', SeedInput Lane1 ''4x'', RunNewGame] init)) = [''42'']"
proof -
  have a: "\<not> accepted_seed ''007''" "\<not> accepted_seed ''4200''" "\<not> accepted_seed ''4x''"
    "accepted_seed ''999''" "spec_seed_pattern ''999''"
    by (simp_all add: accepted_seed_def spec_seed_pattern_def is_digit_def)
  have b: "Number ''999'' = 999" by (simp add: Number_def digit_value_def)
  have c: "lane_shown Lane1 init" by (simp add: lane_shown_def)
  have d: "seed1 (run [SeedInput Lane1 ''42'', SeedInput Lane1 ''4x'', RunNewGame] init) = ''42''"
    "map req_seed (requests (run [SeedInput Lane1 ''42'', SeedInput Lane1 ''4x'', RunNewGame] init)) = [''42'']"
    by code_simp+
  show ?thesis
    using a b c d
      seed_input_accepts_only_valid [of "''42''" "''007''" Lane1 init "[]"]
      seed_input_accepts_only_valid [of "''42''" "''4200''" Lane1 init "[]"]
      seed_input_accepts_only_valid [of "''42''" "''4x''" Lane1 init "[]"]
      seed_input_accepts_only_valid [of "''42''" "''999''" Lane1 init "[]"]
    by simp
qed

section \<open>Playback runs only on a loaded lane 1\<close>

lemma createTableResult_Inr_nonempty:
  "createTableResult g a e (int (length data) - 1) data = Inr r \<Longrightarrow> data \<noteq> []"
  by (auto simp add: createTableResult_def at_index_def)


lemma handle_interval: "interval (handle ev s) = interval s"
  by (cases ev)
     (auto simp add: handler_defs split: lane.splits pending_load.splits sum.splits option.splits)

lemma onResponse_playback:
  assumes "playback_inv s" "k < length (pending s)"
  shows "(playing (onResponse k data s) \<longrightarrow> gameStates1 (onResponse k data s) \<noteq> [])
       \<and> list_all (\<lambda>p. case p of Await1 c \<Rightarrow> True | Await2 c d \<Rightarrow> d \<noteq> [])
            (pending (onResponse k data s))"
proof -
  let ?P = "\<lambda>p. case p of Await1 c \<Rightarrow> True | Await2 c d \<Rightarrow> d \<noteq> []"
  from assms have all: "list_all ?P (pending s)" by (simp add: playback_inv_def)
  from all assms(2) have here: "?P (pending s ! k)" by (rule list_all_nth)
  have rm: "list_all ?P (remove_at k (pending s))" using all by (rule list_all_remove_at)
  show ?thesis
  proof (cases "pending s ! k")
    case (Await1 c)
    show ?thesis
    proof (cases "createTableResult (cl_gridSize c) (cl_agent1 c) (cl_eps1 c) (int (length data) - 1) data")
      case (Inl e)
      with Await1 assms(1) rm show ?thesis by (simp add: onResponse_def playback_inv_def)
    next
      case (Inr r)
      then have ne: "data \<noteq> []" by (rule createTableResult_Inr_nonempty)
      then have "list_all ?P ((pending s)[k := Await2 c data])"
        using all by (intro list_all_update) simp_all
      with Await1 Inr assms(1) rm ne show ?thesis
        by (simp add: onResponse_def finishLoad_def playback_inv_def)
    qed
  next
    case (Await2 c d)
    with here have "d \<noteq> []" by simp
    with Await2 assms(1) rm show ?thesis
      by (simp add: onResponse_def finishLoad_def playback_inv_def split: sum.splits)
  qed
qed

lemma handle_speed: "speed s \<in> {1, 2, 4} \<Longrightarrow> speed (handle ev s) \<in> {1, 2, 4}"
  by (cases ev)
     (auto simp add: handler_defs split: lane.splits pending_load.splits sum.splits option.splits)

lemma handle_playback:
  assumes "playback_inv s"
  shows "(playing s \<and> playing (handle ev s) \<longrightarrow> gameStates1 (handle ev s) \<noteq> [])
       \<and> list_all (\<lambda>p. case p of Await1 c \<Rightarrow> True | Await2 c d \<Rightarrow> d \<noteq> [])
            (pending (handle ev s))"
proof (cases ev)
  case (Response k data)
  with assms onResponse_playback [of s k data] show ?thesis
    by (simp add: playback_inv_def)
qed (use assms in \<open>auto simp add: playback_inv_def handler_defs split: lane.splits option.splits\<close>)

lemma playback_dispatch:
  assumes "playback_inv s"
  shows "playback_inv (dispatch ev s)"
proof -
  from assms have "speed s \<in> {1, 2, 4}" by (simp add: playback_inv_def)
  then have "speed (handle ev s) \<in> {1, 2, 4}" by (rule handle_speed)
  with handle_playback [OF assms, of ev] handle_interval [of ev s] assms
  show ?thesis
    by (auto simp add: playback_inv_def dispatch_def settle_frame settle_playing settle_interval)
qed

lemma playback_run: "playback_inv s \<Longrightarrow> playback_inv (run evs s)"
  by (induction evs arbitrary: s) (simp_all add: playback_dispatch)

lemma playback_init: "playback_inv init"
  by (simp add: playback_inv_def init_def)

section \<open>Rendering stays inside the snapshot sequence\<close>

lemma effectiveStep_min: "effectiveStep t gs = min t (int (length gs) - 1)"
  by (simp add: effectiveStep_def min_def)

lemma effectiveStep_in_range:
  "gs \<noteq> [] \<Longrightarrow> 0 \<le> t \<Longrightarrow> 0 \<le> effectiveStep t gs \<and> effectiveStep t gs < int (length gs)"
  by (cases gs) (auto simp add: effectiveStep_def)

lemma at_index_effectiveStep:
  "gs \<noteq> [] \<Longrightarrow> 0 \<le> t \<Longrightarrow> at_index gs (effectiveStep t gs) = Some (gs ! nat (effectiveStep t gs))"
  using effectiveStep_in_range [of gs t] by (simp add: at_index_def)

lemma collect_all_Inr:
  "(\<And>x. x \<in> set xs \<Longrightarrow> \<exists>v. f x = Inr v \<and> P v) \<Longrightarrow>
   \<exists>vs. collect (map f xs) = Inr vs \<and> (\<forall>v \<in> set vs. P v)"
proof (induction xs)
  case Nil
  show ?case by simp
next
  case (Cons x xs)
  from Cons.prems obtain v where v: "f x = Inr v" "P v" by auto
  from Cons obtain vs where vs: "collect (map f xs) = Inr vs" "\<forall>v \<in> set vs. P v" by auto
  show ?case using v vs by simp
qed

lemma renderCell_ok:
  assumes "0 \<le> t"
  shows "\<exists>c. renderCell g t gs i = Inr c \<and> (gs = [] \<longrightarrow> style c = None \<and> cls c \<noteq> Fruit)"
proof (cases "gs = []")
  case True
  then show ?thesis by (simp add: renderCell_def snakeIndex_def cellClass_def Let_def)
next
  case False
  from at_index_effectiveStep [OF False assms] False show ?thesis by (simp add: renderCell_def snakeIndex_def cellClass_def Let_def)
qed

lemma generateGrid_ok:
  assumes "0 \<le> t"
  shows "\<exists>cs. generateGrid g t gs = Inr cs \<and> (\<forall>c \<in> set cs. gs = [] \<longrightarrow> style c = None \<and> cls c \<noteq> Fruit)"
  unfolding generateGrid_def
  by (rule collect_all_Inr) (use assms renderCell_ok in blast)

lemma Grid_safe:
  assumes "0 \<le> cursor"
  shows "effectiveStep cursor snapshots = min cursor (int (length snapshots) - 1)
       \<and> (snapshots \<noteq> [] \<longrightarrow>
            0 \<le> effectiveStep cursor snapshots
          \<and> effectiveStep cursor snapshots < int (length snapshots)
          \<and> (cursor \<ge> int (length snapshots) \<longrightarrow>
                at_index snapshots (effectiveStep cursor snapshots) = Some (last snapshots)))
       \<and> (\<exists>v. Grid n cursor snapshots = Inr v
              \<and> moves v = min cursor (int (length snapshots) - 1)
              \<and> (snapshots = [] \<longrightarrow>
                    fruits v = 0 \<and> (\<forall>c \<in> set (cells v). style c = None \<and> cls c \<noteq> Fruit)))
       \<and> (\<exists>v1 v2.
              Grid (gridSize (run evs init)) (timeStep (run evs init))
                (gameStates1 (run evs init)) = Inr v1
            \<and> Grid (gridSize (run evs init)) (timeStep (run evs init))
                (gameStates2 (run evs init)) = Inr v2)"
proof -
  have a: "effectiveStep cursor snapshots = min cursor (int (length snapshots) - 1)"
    by (rule effectiveStep_min)
  have b: "0 \<le> effectiveStep cursor snapshots
          \<and> effectiveStep cursor snapshots < int (length snapshots)
          \<and> (cursor \<ge> int (length snapshots) \<longrightarrow>
                at_index snapshots (effectiveStep cursor snapshots) = Some (last snapshots))"
    if "snapshots \<noteq> []"
    using that assms effectiveStep_in_range [of snapshots cursor] at_index_last [of snapshots]
    by (simp add: effectiveStep_def)
  have c: "\<exists>v. Grid n t gs = Inr v
              \<and> moves v = min t (int (length gs) - 1)
              \<and> (gs = [] \<longrightarrow>
                    fruits v = 0 \<and> (\<forall>c \<in> set (cells v). style c = None \<and> cls c \<noteq> Fruit))"
    if t: "0 \<le> t" for n t gs
  proof -
    obtain cs where cs: "generateGrid n t gs = Inr cs"
      "\<forall>c \<in> set cs. gs = [] \<longrightarrow> style c = None \<and> cls c \<noteq> Fruit"
      using generateGrid_ok [OF t] by blast
    show ?thesis
    proof (cases "gs = []")
      case True
      then show ?thesis using cs by (simp add: Grid_def effectiveStep_min)
    next
      case False
      then show ?thesis
        using cs at_index_effectiveStep [OF False t] by (simp add: Grid_def effectiveStep_min)
    qed
  qed
  have t: "0 \<le> timeStep (run evs init)" by (rule timeStep_run) (simp add: init_def)
  from c [OF t, of "gridSize (run evs init)" "gameStates1 (run evs init)"]
  obtain v1 where v1: "Grid (gridSize (run evs init)) (timeStep (run evs init))
                (gameStates1 (run evs init)) = Inr v1" by blast
  from c [OF t, of "gridSize (run evs init)" "gameStates2 (run evs init)"]
  obtain v2 where v2: "Grid (gridSize (run evs init)) (timeStep (run evs init))
                (gameStates2 (run evs init)) = Inr v2" by blast
  from v1 v2 have d: "\<exists>v1 v2.
              Grid (gridSize (run evs init)) (timeStep (run evs init))
                (gameStates1 (run evs init)) = Inr v1
            \<and> Grid (gridSize (run evs init)) (timeStep (run evs init))
                (gameStates2 (run evs init)) = Inr v2"
    by blast
  note e = c [OF assms, of n snapshots]
  show ?thesis
    apply (intro conjI)
       apply (rule a)
      apply (use b in blast)
     apply (rule e)
    apply (rule d)
    done
qed

lemma collect_map_Inr:
  "(\<And>x. x \<in> set xs \<Longrightarrow> f x = Inr (g x)) \<Longrightarrow> collect (map f xs) = Inr (map g xs)"
  by (induction xs) simp_all

lemma renderCell_nonempty:
  assumes "gs \<noteq> []" "0 \<le> t"
  shows "renderCell n t gs i =
     (let st = gs ! nat (min t (int (length gs) - 1)) in
      Inr \<lparr> cls = (if i div n = 0 \<or> i div n = n - 1 \<or> i mod n = 0 \<or> i mod n = n - 1 then Wall
                   else if i = fruit st then Fruit
                   else if i mod 2 \<noteq> 0 then GrassDark else GrassLight),
            style = (if indexOf (snake st) i \<noteq> - 1 then Some (indexOf (snake st) i) else None) \<rparr>)"
  using assms at_index_effectiveStep [OF assms]
  by (simp add: renderCell_def snakeIndex_def cellClass_def Let_def effectiveStep_min)

lemma renderCell_empty:
  "renderCell n t [] i =
      Inr \<lparr> cls = (if i div n = 0 \<or> i div n = n - 1 \<or> i mod n = 0 \<or> i mod n = n - 1 then Wall
                   else if i mod 2 \<noteq> 0 then GrassDark else GrassLight),
            style = None \<rparr>"
  by (simp add: renderCell_def snakeIndex_def cellClass_def Let_def)

lemma Grid_nonempty:
  assumes "gs \<noteq> []" "0 \<le> t"
  shows "Grid n t gs =
     (let st = gs ! nat (min t (int (length gs) - 1)) in
      Inr \<lparr> cells = map (\<lambda>k.
                \<lparr> cls = (if int k div n = 0 \<or> int k div n = n - 1
                             \<or> int k mod n = 0 \<or> int k mod n = n - 1 then Wall
                          else if int k = fruit st then Fruit
                          else if int k mod 2 \<noteq> 0 then GrassDark else GrassLight),
                  style = (if indexOf (snake st) (int k) \<noteq> - 1
                           then Some (indexOf (snake st) (int k)) else None) \<rparr>)
                [0 ..< nat (n * n)],
            moves = min t (int (length gs) - 1),
            fruits = int (length (snake st)) - 1 \<rparr>)"
proof -
  let ?st = "gs ! nat (min t (int (length gs) - 1))"
  have g: "generateGrid n t gs = Inr (map (\<lambda>k.
                \<lparr> cls = (if int k div n = 0 \<or> int k div n = n - 1
                             \<or> int k mod n = 0 \<or> int k mod n = n - 1 then Wall
                          else if int k = fruit ?st then Fruit
                          else if int k mod 2 \<noteq> 0 then GrassDark else GrassLight),
                  style = (if indexOf (snake ?st) (int k) \<noteq> - 1
                           then Some (indexOf (snake ?st) (int k)) else None) \<rparr>)
                [0 ..< nat (n * n)])"
    unfolding generateGrid_def
    by (rule collect_map_Inr) (simp add: renderCell_nonempty [OF assms] Let_def)
  from assms g at_index_effectiveStep [OF assms] show ?thesis
    by (simp add: Grid_def Let_def effectiveStep_min)
qed

lemma Grid_empty:
  "Grid n t [] =
      Inr \<lparr> cells = map (\<lambda>k.
                \<lparr> cls = (if int k div n = 0 \<or> int k div n = n - 1
                             \<or> int k mod n = 0 \<or> int k mod n = n - 1 then Wall
                          else if int k mod 2 \<noteq> 0 then GrassDark else GrassLight),
                  style = None \<rparr>)
                [0 ..< nat (n * n)],
            moves = min t (- 1),
            fruits = 0 \<rparr>"
proof -
  have g: "generateGrid n t [] = Inr (map (\<lambda>k.
                \<lparr> cls = (if int k div n = 0 \<or> int k div n = n - 1
                             \<or> int k mod n = 0 \<or> int k mod n = n - 1 then Wall
                          else if int k mod 2 \<noteq> 0 then GrassDark else GrassLight),
                  style = None \<rparr>)
                [0 ..< nat (n * n)])"
    unfolding generateGrid_def
    by (rule collect_map_Inr) (simp add: renderCell_empty)
  then show ?thesis by (simp add: Grid_def effectiveStep_min)
qed

lemma Grid_freezes:
  assumes "gs \<noteq> []" "int (length gs) \<le> t"
  shows "Grid n t gs = Grid n (int (length gs) - 1) gs"
proof -
  from assms have t: "0 \<le> t" by simp
  from assms(1) have l: "0 \<le> int (length gs) - 1" by (cases gs) simp_all
  from assms show ?thesis
    by (simp add: Grid_nonempty [OF assms(1) t] Grid_nonempty [OF assms(1) l] min_def)
qed

text \<open>
  Claim C3. For every lane and every cursor (a time step that is not negative), \<open>Grid\<close>
  never fails, and what it shows is the snapshot at index \<open>min cursor (length - 1)\<close>:
  for a lane that is not empty its view is exactly the grid of that snapshot (walls, the
  snapshot's fruit, the snapshot's snake with each cell's position in the body, grass
  elsewhere), "Moves" is that index and "Fruits" is the length of that snapshot's snake
  minus 1. That index lies inside the sequence; at \<open>cursor \<ge> length\<close> the view is the
  one at the last index, of the last snapshot. An empty lane is drawn as walls and grass
  only, with no body cell, no fruit cell and a fruit count of 0. In particular both lanes
  of every reachable state render.
\<close>

theorem Grid_effective_index:
  assumes "0 \<le> cursor"
  shows "effectiveStep cursor snapshots = min cursor (int (length snapshots) - 1)
       \<and> (snapshots \<noteq> [] \<longrightarrow>
            0 \<le> effectiveStep cursor snapshots
          \<and> effectiveStep cursor snapshots < int (length snapshots)
          \<and> (cursor \<ge> int (length snapshots) \<longrightarrow>
                at_index snapshots (effectiveStep cursor snapshots) = Some (last snapshots)))
       \<and> (\<exists>v. Grid n cursor snapshots = Inr v
              \<and> moves v = min cursor (int (length snapshots) - 1)
              \<and> (snapshots = [] \<longrightarrow>
                    fruits v = 0 \<and> (\<forall>c \<in> set (cells v). style c = None \<and> cls c \<noteq> Fruit)))
       \<and> (\<exists>v1 v2.
              Grid (gridSize (run evs init)) (timeStep (run evs init))
                (gameStates1 (run evs init)) = Inr v1
            \<and> Grid (gridSize (run evs init)) (timeStep (run evs init))
                (gameStates2 (run evs init)) = Inr v2)
       \<and> (snapshots \<noteq> [] \<longrightarrow>
            Grid n cursor snapshots =
              (let st = snapshots ! nat (min cursor (int (length snapshots) - 1)) in
               Inr \<lparr> cells = map (\<lambda>k.
                         \<lparr> cls = (if int k div n = 0 \<or> int k div n = n - 1
                                      \<or> int k mod n = 0 \<or> int k mod n = n - 1 then Wall
                                   else if int k = fruit st then Fruit
                                   else if int k mod 2 \<noteq> 0 then GrassDark else GrassLight),
                           style = (if indexOf (snake st) (int k) \<noteq> - 1
                                    then Some (indexOf (snake st) (int k)) else None) \<rparr>)
                         [0 ..< nat (n * n)],
                     moves = min cursor (int (length snapshots) - 1),
                     fruits = int (length (snake st)) - 1 \<rparr>))
       \<and> (snapshots \<noteq> [] \<and> cursor \<ge> int (length snapshots) \<longrightarrow>
            Grid n cursor snapshots = Grid n (int (length snapshots) - 1) snapshots
          \<and> snapshots ! nat (min cursor (int (length snapshots) - 1)) = last snapshots)
       \<and> (snapshots = [] \<longrightarrow>
            Grid n cursor snapshots =
               Inr \<lparr> cells = map (\<lambda>k.
                         \<lparr> cls = (if int k div n = 0 \<or> int k div n = n - 1
                                      \<or> int k mod n = 0 \<or> int k mod n = n - 1 then Wall
                                   else if int k mod 2 \<noteq> 0 then GrassDark else GrassLight),
                           style = None \<rparr>)
                         [0 ..< nat (n * n)],
                     moves = - 1,
                     fruits = 0 \<rparr>)"
proof -
  note old = Grid_safe [OF assms, of snapshots n evs]
  have exact: "Grid n cursor snapshots =
              (let st = snapshots ! nat (min cursor (int (length snapshots) - 1)) in
               Inr \<lparr> cells = map (\<lambda>k.
                         \<lparr> cls = (if int k div n = 0 \<or> int k div n = n - 1
                                      \<or> int k mod n = 0 \<or> int k mod n = n - 1 then Wall
                                   else if int k = fruit st then Fruit
                                   else if int k mod 2 \<noteq> 0 then GrassDark else GrassLight),
                           style = (if indexOf (snake st) (int k) \<noteq> - 1
                                    then Some (indexOf (snake st) (int k)) else None) \<rparr>)
                         [0 ..< nat (n * n)],
                     moves = min cursor (int (length snapshots) - 1),
                     fruits = int (length (snake st)) - 1 \<rparr>)"
    if "snapshots \<noteq> []"
    using that assms by (rule Grid_nonempty)
  have freeze: "Grid n cursor snapshots = Grid n (int (length snapshots) - 1) snapshots
          \<and> snapshots ! nat (min cursor (int (length snapshots) - 1)) = last snapshots"
    if "snapshots \<noteq> [] \<and> cursor \<ge> int (length snapshots)"
    using that Grid_freezes [of snapshots cursor n]
    by (simp add: min_def last_conv_nth nat_diff_distrib')
  have empty: "Grid n cursor snapshots =
               Inr \<lparr> cells = map (\<lambda>k.
                         \<lparr> cls = (if int k div n = 0 \<or> int k div n = n - 1
                                      \<or> int k mod n = 0 \<or> int k mod n = n - 1 then Wall
                                   else if int k mod 2 \<noteq> 0 then GrassDark else GrassLight),
                           style = None \<rparr>)
                         [0 ..< nat (n * n)],
                     moves = - 1,
                     fruits = 0 \<rparr>"
    if "snapshots = []"
    using that assms by (simp add: Grid_empty min_def)
  show ?thesis
    apply (intro conjI)
          apply (use old in blast)
         apply (use old in blast)
        apply (use old in blast)
       apply (use old in blast)
      apply (use exact in blast)
     apply (use freeze in blast)
    apply (use empty in blast)
    done
qed

theorem Grid_effective_index_witness:
  "effectiveStep 3 scenario_response = 1
   \<and> at_index scenario_response (effectiveStep 3 scenario_response)
       = Some (last scenario_response)
   \<and> Grid 5 3 scenario_response = Grid 5 1 scenario_response
   \<and> (\<exists>v. Grid 5 3 scenario_response = Inr v \<and> moves v = 1 \<and> fruits v = 1
          \<and> length (cells v) = 25
          \<and> cells v ! 6 = \<lparr> cls = Fruit, style = None \<rparr>
          \<and> cells v ! 12 = \<lparr> cls = GrassLight, style = Some 0 \<rparr>
          \<and> cells v ! 11 = \<lparr> cls = GrassDark, style = Some 1 \<rparr>
          \<and> cells v ! 0 = \<lparr> cls = Wall, style = None \<rparr>)
   \<and> (\<exists>v. Grid 5 0 [] = Inr v \<and> fruits v = 0 \<and> length (cells v) = 25
          \<and> list_all (\<lambda>c. style c = None \<and> cls c \<noteq> Fruit) (cells v))"
proof -
  have a: "scenario_response \<noteq> []" "int (length scenario_response) = 2"
    "last scenario_response = \<lparr> snake = [12, 11], fruit = 6, won = False, died = True \<rparr>"
    by (simp_all add: scenario_response_def)
  have b: "(0::int) \<le> 3" "(0::int) \<le> 0" by simp_all
  note t = Grid_effective_index [OF b(1), of scenario_response 5 "[]"]
  note e = Grid_effective_index [OF b(2), of "[]" 5 "[]"]
  have c: "3 \<ge> int (length scenario_response)" "int (length scenario_response) - 1 = 1"
    by (simp_all add: a(2))
  from t a(1) c(1) have "Grid 5 3 scenario_response
      = Grid 5 (int (length scenario_response) - 1) scenario_response"
    by blast
  then have freeze: "Grid 5 3 scenario_response = Grid 5 1 scenario_response"
    by (simp only: c(2))
  from t a have g: "Grid 5 3 scenario_response =
              (let st = scenario_response ! nat (min 3 (int (length scenario_response) - 1)) in
               Inr \<lparr> cells = map (\<lambda>k.
                         \<lparr> cls = (if int k div 5 = 0 \<or> int k div 5 = 5 - 1
                                      \<or> int k mod 5 = 0 \<or> int k mod 5 = 5 - 1 then Wall
                                   else if int k = fruit st then Fruit
                                   else if int k mod 2 \<noteq> 0 then GrassDark else GrassLight),
                           style = (if indexOf (snake st) (int k) \<noteq> - 1
                                    then Some (indexOf (snake st) (int k)) else None) \<rparr>)
                         [0 ..< nat (5 * 5)],
                     moves = min 3 (int (length scenario_response) - 1),
                     fruits = int (length (snake st)) - 1 \<rparr>)"
    by blast
  have first: "\<exists>v. Grid 5 3 scenario_response = Inr v \<and> moves v = 1 \<and> fruits v = 1
          \<and> length (cells v) = 25
          \<and> cells v ! 6 = \<lparr> cls = Fruit, style = None \<rparr>
          \<and> cells v ! 12 = \<lparr> cls = GrassLight, style = Some 0 \<rparr>
          \<and> cells v ! 11 = \<lparr> cls = GrassDark, style = Some 1 \<rparr>
          \<and> cells v ! 0 = \<lparr> cls = Wall, style = None \<rparr>"
    unfolding g Let_def by (simp add: scenario_response_def)
  from e have "Grid 5 0 [] = Inr \<lparr> cells = map (\<lambda>k.
                         \<lparr> cls = (if int k div 5 = 0 \<or> int k div 5 = 5 - 1
                                      \<or> int k mod 5 = 0 \<or> int k mod 5 = 5 - 1 then Wall
                                   else if int k mod 2 \<noteq> 0 then GrassDark else GrassLight),
                           style = None \<rparr>)
                         [0 ..< nat (5 * 5)],
                     moves = - 1,
                     fruits = 0 \<rparr>"
    by blast
  then have second: "\<exists>v. Grid 5 0 [] = Inr v \<and> fruits v = 0 \<and> length (cells v) = 25
          \<and> list_all (\<lambda>c. style c = None \<and> cls c \<noteq> Fruit) (cells v)"
    by (simp add: list_all_iff)
  from t a(1) c(1) have "effectiveStep 3 scenario_response
      = min 3 (int (length scenario_response) - 1)"
    and "at_index scenario_response (effectiveStep 3 scenario_response)
      = Some (last scenario_response)"
    by blast+
  with freeze first second show ?thesis by (simp add: a(2))
qed


section \<open>The history table only grows at the front\<close>








section \<open>Manual stepping\<close>

text \<open>
  Claim C6. Forward adds 1 to the time step exactly when it is below
  \<open>max(gameStates1.length, gameStates2.length) - 1\<close> and leaves it otherwise; Back
  subtracts 1 exactly when it is above 0 and leaves it otherwise; both leave playback
  stopped; and the time step is never negative, whatever events have happened.
\<close>

theorem manual_stepping:
  "timeStep (dispatch Forward s) =
     (if timeStep s < max (int (length (gameStates1 s))) (int (length (gameStates2 s))) - 1
      then timeStep s + 1 else timeStep s)
   \<and> timeStep (dispatch Back s) = (if timeStep s > 0 then timeStep s - 1 else timeStep s)
   \<and> \<not> playing (dispatch Forward s)
   \<and> \<not> playing (dispatch Back s)
   \<and> 0 \<le> timeStep (run evs init)"
proof -
  have "0 \<le> timeStep (run evs init)" by (rule timeStep_run) (simp add: init_def)
  then show ?thesis
    by (simp add: dispatch_def settle_frame settle_playing onForward_def onBack_def maxStep_def)
qed

theorem manual_stepping_witness:
  "timeStep (dispatch Forward (run [RunNewGame, Response 0 scenario_response] init)) = 1
   \<and> timeStep (dispatch Forward (run [RunNewGame, Response 0 scenario_response, Forward] init)) = 1
   \<and> timeStep (dispatch Back (run [RunNewGame, Response 0 scenario_response, Forward] init)) = 0
   \<and> timeStep (dispatch Back (run [RunNewGame, Response 0 scenario_response] init)) = 0
   \<and> \<not> playing (dispatch Forward (run [RunNewGame, Response 0 scenario_response] init))
   \<and> 0 \<le> timeStep (run [RunNewGame, Response 0 scenario_response, Tick] init)"
proof -
  have a: "timeStep (run [RunNewGame, Response 0 scenario_response] init) = 0"
    "int (length (gameStates1 (run [RunNewGame, Response 0 scenario_response] init))) = 2"
    "int (length (gameStates2 (run [RunNewGame, Response 0 scenario_response] init))) = 0"
    by code_simp+
  have b: "timeStep (run [RunNewGame, Response 0 scenario_response, Forward] init) = 1"
    "int (length (gameStates1 (run [RunNewGame, Response 0 scenario_response, Forward] init))) = 2"
    "int (length (gameStates2 (run [RunNewGame, Response 0 scenario_response, Forward] init))) = 0"
    by code_simp+
  show ?thesis
    using manual_stepping [of "run [RunNewGame, Response 0 scenario_response] init"
            "[RunNewGame, Response 0 scenario_response, Tick]"]
          manual_stepping [of "run [RunNewGame, Response 0 scenario_response, Forward] init" "[]"]
    unfolding a b by simp
qed

section \<open>The timer tick\<close>

text \<open>
  A tick compares the time step with the ceiling of the lengths its closure holds, moves
  the time step by at most one, and a change of speed re-creates the interval from the
  lanes of that moment.
\<close>

lemma tick_against_closure:
  assumes "interval s = Some t"
  shows "timeStep (dispatch Tick s) =
           (if timeStep s < max (len1 t) (len2 t) - 1 then timeStep s + 1 else timeStep s)"
    and "playing (dispatch Tick s) = (playing s \<and> timeStep s < max (len1 t) (len2 t) - 1)"
  using assms by (auto simp add: dispatch_def settle_frame settle_playing tick_def)

lemma tick_moves_cursor_by_at_most_one:
  "timeStep (dispatch Tick s) = timeStep s \<or> timeStep (dispatch Tick s) = timeStep s + 1"
  by (cases "interval s") (auto simp add: dispatch_def settle_frame tick_def)

lemma speed_change_restarts_interval:
  assumes "playback_inv s" "playing s"
  shows "interval (dispatch Speed s) =
           Some \<lparr> len1 = int (length (gameStates1 s)), len2 = int (length (gameStates2 s)),
                  intervalMs = 500 / of_int (speed (dispatch Speed s)) \<rparr>"
    and "speed (dispatch Speed s) = (if speed s = 4 then 1 else speed s * 2)"
    and "timeStep (dispatch Speed s) = timeStep s"
  using assms by (auto simp add: dispatch_def settle_frame settle_interval onSpeed_def playback_inv_def)

text \<open>
  Claim C1, at an input where the code departs from it. A three-snapshot run is playing
  when a second load completes with two snapshots: \<open>setPlaying(true)\<close> changes nothing,
  the playback effect does not run again, and the interval keeps the lengths of the old
  lanes. With the time step at the ceiling of the lanes now loaded, 1, the next tick moves
  it to 2 and playback goes on. With the two responses in the other order, the tick at
  time step 1 stops playback although the ceiling of the lanes now loaded is 2.
\<close>

theorem tick_after_load_while_playing:
  "playing (run [RunNewGame, Response 0 longer_response, RunNewGame,
                 Response 0 scenario_response, Tick] init)
   \<and> timeStep (run [RunNewGame, Response 0 longer_response, RunNewGame,
                    Response 0 scenario_response, Tick] init) = 1
   \<and> maxStep (run [RunNewGame, Response 0 longer_response, RunNewGame,
                   Response 0 scenario_response, Tick] init) = 1
   \<and> timeStep (dispatch Tick (run [RunNewGame, Response 0 longer_response, RunNewGame,
                                   Response 0 scenario_response, Tick] init)) = 2
   \<and> playing (dispatch Tick (run [RunNewGame, Response 0 longer_response, RunNewGame,
                                  Response 0 scenario_response, Tick] init))
   \<and> playing (run [RunNewGame, Response 0 scenario_response, RunNewGame,
                   Response 0 longer_response, Tick] init)
   \<and> timeStep (run [RunNewGame, Response 0 scenario_response, RunNewGame,
                    Response 0 longer_response, Tick] init) = 1
   \<and> maxStep (run [RunNewGame, Response 0 scenario_response, RunNewGame,
                   Response 0 longer_response, Tick] init) = 2
   \<and> timeStep (dispatch Tick (run [RunNewGame, Response 0 scenario_response, RunNewGame,
                                   Response 0 longer_response, Tick] init)) = 1
   \<and> \<not> playing (dispatch Tick (run [RunNewGame, Response 0 scenario_response, RunNewGame,
                                    Response 0 longer_response, Tick] init))"
  by code_simp

section \<open>Replaying a row of the history table\<close>

text \<open>What the two replay handlers write.\<close>

lemma replay_grid1_handler:
  "gameStates1 (onReplayGrid1 res s) = replay res"
  "gameStates2 (onReplayGrid1 res s) = (if gridSize s \<noteq> replaySize res then replay res else gameStates2 s)"
  "agent1 (onReplayGrid1 res s) = agentCode res"
  "eps1 (onReplayGrid1 res s) = train res"
  "gridSize (onReplayGrid1 res s) = replaySize res"
  "timeStep (onReplayGrid1 res s) = 0"
  "playing (onReplayGrid1 res s) = False"
  "twoGrids (onReplayGrid1 res s) = twoGrids s"
  "agent2 (onReplayGrid1 res s) = agent2 s"
  "eps2 (onReplayGrid1 res s) = eps2 s"
  by (simp_all add: onReplayGrid1_def)

lemma replay_grid2_handler:
  "gameStates2 (onReplayGrid2 res s) = replay res"
  "gameStates1 (onReplayGrid2 res s) = (if gridSize s \<noteq> replaySize res then replay res else gameStates1 s)"
  "agent2 (onReplayGrid2 res s) = agentCode res"
  "eps2 (onReplayGrid2 res s) = train res"
  "gridSize (onReplayGrid2 res s) = replaySize res"
  "timeStep (onReplayGrid2 res s) = 0"
  "playing (onReplayGrid2 res s) = False"
  "twoGrids (onReplayGrid2 res s) = True"
  "agent1 (onReplayGrid2 res s) = agent1 s"
  "eps1 (onReplayGrid2 res s) = eps1 s"
  by (simp_all add: onReplayGrid2_def)

text \<open>
  After the effects have run: everything the handlers wrote stands, except that a change
  of agent (or the mounting of the second selector) passes the training through the effect
  of \<open>ModelSelect\<close>, which keeps a training of the other agents and overwrites one of a
  deep agent.
\<close>

lemma replay_grid1_settled:
  assumes "k < length (tableRes s)"
  shows "gameStates1 (dispatch (ReplayGrid1 k) s) = replay (tableRes s ! k)"
    and "agent1 (dispatch (ReplayGrid1 k) s) = agentCode (tableRes s ! k)"
    and "gridSize (dispatch (ReplayGrid1 k) s) = replaySize (tableRes s ! k)"
    and "timeStep (dispatch (ReplayGrid1 k) s) = 0"
    and "\<not> playing (dispatch (ReplayGrid1 k) s)"
    and "gridSize s \<noteq> replaySize (tableRes s ! k) \<Longrightarrow>
           gameStates2 (dispatch (ReplayGrid1 k) s) = replay (tableRes s ! k)"
    and "eps1 (dispatch (ReplayGrid1 k) s) =
           (if agentCode (tableRes s ! k) \<noteq> agent1 s
            then modelSelectEffect (agentCode (tableRes s ! k)) (train (tableRes s ! k))
            else train (tableRes s ! k))"
  using assms
  by (simp_all add: dispatch_def settle_frame settle_playing settle_eps1 replay_grid1_handler)

lemma replay_grid2_settled:
  assumes "k < length (tableRes s)"
  shows "gameStates2 (dispatch (ReplayGrid2 k) s) = replay (tableRes s ! k)"
    and "agent2 (dispatch (ReplayGrid2 k) s) = agentCode (tableRes s ! k)"
    and "gridSize (dispatch (ReplayGrid2 k) s) = replaySize (tableRes s ! k)"
    and "twoGrids (dispatch (ReplayGrid2 k) s)"
    and "timeStep (dispatch (ReplayGrid2 k) s) = 0"
    and "\<not> playing (dispatch (ReplayGrid2 k) s)"
    and "gridSize s \<noteq> replaySize (tableRes s ! k) \<Longrightarrow>
           gameStates1 (dispatch (ReplayGrid2 k) s) = replay (tableRes s ! k)"
    and "eps2 (dispatch (ReplayGrid2 k) s) =
           (if \<not> twoGrids s \<or> agentCode (tableRes s ! k) \<noteq> agent2 s
            then modelSelectEffect (agentCode (tableRes s ! k)) (train (tableRes s ! k))
            else train (tableRes s ! k))"
  using assms
  by (simp_all add: dispatch_def settle_frame settle_playing settle_eps2 replay_grid2_handler)

lemma modelSelectEffect_keeps_heavy:
  "agt \<noteq> ''a*'' \<Longrightarrow> \<not> includes_str agt ''deep'' \<Longrightarrow> eps \<in> set [''50k'', ''75k'', ''100k'']
   \<Longrightarrow> modelSelectEffect agt eps = eps"
  by (simp add: modelSelectEffect_def)

lemma modelSelectEffect_overwrites_deep:
  "includes_str agt ''deep'' \<Longrightarrow> agt \<noteq> ''a*'' \<Longrightarrow> eps \<in> set [''1k'', ''3k'', ''5k'']
   \<Longrightarrow> modelSelectEffect agt eps = ''50k''"
  by (auto simp add: modelSelectEffect_def)

text \<open>
  Claim C2, at an input where the code departs from it. A row recorded for the deep agent
  with training "1k" is replayed into lane 1 while its agent is "a*". The handler writes
  agent "deep-ql" and training "1k"; the change of agent then runs the effect of
  \<open>ModelSelect\<close>, whose last branch is taken for a deep agent with a valid training and
  overwrites it with "50k".
\<close>

theorem replay_of_deep_entry_loses_training:
  "agentCode (tableRes (run [SelectAgent Lane1 ''deep-ql'', RunNewGame,
        Response 0 scenario_response, SelectAgent Lane1 ''a*''] init) ! 0) = ''deep-ql''
   \<and> train (tableRes (run [SelectAgent Lane1 ''deep-ql'', RunNewGame,
        Response 0 scenario_response, SelectAgent Lane1 ''a*''] init) ! 0) = ''1k''
   \<and> agent1 (run [SelectAgent Lane1 ''deep-ql'', RunNewGame,
        Response 0 scenario_response, SelectAgent Lane1 ''a*'', ReplayGrid1 0] init) = ''deep-ql''
   \<and> eps1 (run [SelectAgent Lane1 ''deep-ql'', RunNewGame,
        Response 0 scenario_response, SelectAgent Lane1 ''a*'', ReplayGrid1 0] init) = ''50k''"
  by code_simp

text \<open>
  Claim C10. Replaying into lane 1 a row whose grid size differs from the current one
  writes the row's snapshots into lane 2 as well, leaves the agent and the training of
  lane 2 as they were, and does not switch the second lane on or off. The ceiling
  \<open>maxStep\<close> is computed from both lanes whether or not the second one is shown: in
  every state whose lane 2 holds these snapshots it is at least their last index, and
  Forward steps up to it.
\<close>

theorem replay_mismatch_overwrites_hidden_lane:
  assumes "k < length (tableRes s)" "gridSize s \<noteq> replaySize (tableRes s ! k)"
  shows "gameStates2 (dispatch (ReplayGrid1 k) s) = replay (tableRes s ! k)
       \<and> gameStates1 (dispatch (ReplayGrid1 k) s) = replay (tableRes s ! k)
       \<and> agent2 (dispatch (ReplayGrid1 k) s) = agent2 s
       \<and> eps2 (dispatch (ReplayGrid1 k) s) = eps2 s
       \<and> twoGrids (dispatch (ReplayGrid1 k) s) = twoGrids s
       \<and> maxStep (dispatch (ReplayGrid1 k) s)
           = max (int (length (gameStates1 (dispatch (ReplayGrid1 k) s))))
                 (int (length (gameStates2 (dispatch (ReplayGrid1 k) s)))) - 1
       \<and> (\<forall>s'. gameStates2 s' = replay (tableRes s ! k) \<longrightarrow>
              int (length (replay (tableRes s ! k))) - 1 \<le> maxStep s'
            \<and> (timeStep s' < int (length (replay (tableRes s ! k))) - 1 \<longrightarrow>
                 timeStep (dispatch Forward s') = timeStep s' + 1))"
proof -
  have hidden: "int (length (replay (tableRes s ! k))) - 1 \<le> maxStep s'
            \<and> (timeStep s' < int (length (replay (tableRes s ! k))) - 1 \<longrightarrow>
                 timeStep (dispatch Forward s') = timeStep s' + 1)"
    if "gameStates2 s' = replay (tableRes s ! k)" for s'
    using that by (auto simp add: dispatch_def settle_frame maxStep_def onForward_def)
  from assms have "gameStates2 (dispatch (ReplayGrid1 k) s) = replay (tableRes s ! k)
       \<and> gameStates1 (dispatch (ReplayGrid1 k) s) = replay (tableRes s ! k)
       \<and> agent2 (dispatch (ReplayGrid1 k) s) = agent2 s
       \<and> eps2 (dispatch (ReplayGrid1 k) s) = eps2 s
       \<and> twoGrids (dispatch (ReplayGrid1 k) s) = twoGrids s"
    by (simp add: dispatch_def settle_frame settle_eps2 replay_grid1_handler)
  with hidden show ?thesis by (simp add: maxStep_def)
qed

theorem replay_mismatch_overwrites_hidden_lane_witness:
  "0 < length (tableRes (run [RunNewGame, Response 0 longer_response, SelectGridSize 7] init))
   \<and> gridSize (run [RunNewGame, Response 0 longer_response, SelectGridSize 7] init)
       \<noteq> replaySize (tableRes (run [RunNewGame, Response 0 longer_response, SelectGridSize 7] init) ! 0)
   \<and> \<not> twoGrids (run [RunNewGame, Response 0 longer_response, SelectGridSize 7, ReplayGrid1 0] init)
   \<and> gameStates2 (run [RunNewGame, Response 0 longer_response, SelectGridSize 7, ReplayGrid1 0] init)
       = longer_response
   \<and> maxStep (run [RunNewGame, Response 0 longer_response, SelectGridSize 7, ReplayGrid1 0] init) = 2
   \<and> length (gameStates1 (run [RunNewGame, Response 0 longer_response, SelectGridSize 7,
        ReplayGrid1 0, RunNewGame, Response 0 scenario_response] init)) = 2
   \<and> 2 \<le> maxStep (run [RunNewGame, Response 0 longer_response, SelectGridSize 7,
        ReplayGrid1 0, RunNewGame, Response 0 scenario_response] init)"
proof -
  let ?s = "run [RunNewGame, Response 0 longer_response, SelectGridSize 7] init"
  let ?later = "run [RunNewGame, Response 0 longer_response, SelectGridSize 7,
        ReplayGrid1 0, RunNewGame, Response 0 scenario_response] init"
  have a: "0 < length (tableRes ?s)" "gridSize ?s \<noteq> replaySize (tableRes ?s ! 0)"
    "\<not> twoGrids ?s" "replay (tableRes ?s ! 0) = longer_response"
    by code_simp+
  have b: "run [RunNewGame, Response 0 longer_response, SelectGridSize 7, ReplayGrid1 0] init
    = dispatch (ReplayGrid1 0) ?s" by simp
  have c: "int (length longer_response) = 3" by (simp add: longer_response_def scenario_response_def)
  have d: "gameStates2 ?later = longer_response" "length (gameStates1 ?later) = 2" by code_simp+
  from replay_mismatch_overwrites_hidden_lane [OF a(1) a(2)] a c d
  show ?thesis unfolding b by simp
qed

section \<open>Entering playback\<close>

lemma handle_starts_playback:
  assumes "\<not> playing s" "playing (handle ev s)"
  shows "(ev = MiddleButton \<and> timeStep s < maxStep s)
       \<or> (\<exists>k data. ev = Response k data \<and> timeStep (handle ev s) = 0)"
  using assms
  by (cases ev)
     (auto simp add: handler_defs canStepForward_def
           split: lane.splits pending_load.splits sum.splits option.splits if_splits)

lemma dispatch_playing_handle: "playing (dispatch ev s) \<Longrightarrow> playing (handle ev s)"
  by (auto simp add: dispatch_def settle_playing split: if_splits)

lemma play_request_without_lane1:
  assumes "playback_inv s" "\<not> playing s" "timeStep s < maxStep s" "gameStates1 s = []"
  shows "dispatch MiddleButton s = s"
proof -
  from assms(1,2) have "interval s = None" by (simp add: playback_inv_def)
  with assms(2,3,4) show ?thesis
    by (simp add: dispatch_def settle_def playbackEffect_def onMiddleButton_def
        onPlayPause_def canStepForward_def Let_def)
qed

text \<open>
  Claim C9 as stated fails for the other way into playback. A load that completes starts
  playback without looking at the ceiling: with a response of one snapshot the page is
  playing at time step 0, which is the ceiling.
\<close>

theorem load_starts_playback_at_ceiling:
  "\<not> playing (run [RunNewGame] init)
   \<and> playing (dispatch (Response 0 single_response) (run [RunNewGame] init))
   \<and> timeStep (dispatch (Response 0 single_response) (run [RunNewGame] init)) = 0
   \<and> maxStep (dispatch (Response 0 single_response) (run [RunNewGame] init)) = 0"
  by code_simp

text \<open>
  Claim C9, amended. In every reachable state, playing implies that lane 1 is not empty.
  From a stopped state the middle button starts playback exactly when lane 1 is not empty
  and the time step is below the ceiling \<open>maxStep\<close>; below the ceiling with an empty lane
  1 it changes nothing, since the playback effect takes \<open>playing\<close> back at once; at or
  above the ceiling it is the restart button, which sets the time step to 0 and leaves
  playback stopped. The only other event that leads from stopped to playing is a response
  that completes a load, which starts at time step 0 with lane 1 not empty.
\<close>

theorem play_request_guard:
  assumes "s = run evs init"
  shows "(playing s \<longrightarrow> gameStates1 s \<noteq> [])
       \<and> (\<not> playing s \<longrightarrow>
            (playing (dispatch MiddleButton s) \<longleftrightarrow> gameStates1 s \<noteq> [] \<and> timeStep s < maxStep s))
       \<and> (\<not> playing s \<and> timeStep s < maxStep s \<and> gameStates1 s = [] \<longrightarrow>
            dispatch MiddleButton s = s)
       \<and> (\<not> timeStep s < maxStep s \<longrightarrow>
            timeStep (dispatch MiddleButton s) = 0 \<and> \<not> playing (dispatch MiddleButton s))
       \<and> (\<not> playing s \<and> playing (dispatch ev s) \<longrightarrow>
            gameStates1 (dispatch ev s) \<noteq> []
            \<and> ((ev = MiddleButton \<and> timeStep s < maxStep s)
               \<or> (\<exists>k data. ev = Response k data \<and> timeStep (dispatch ev s) = 0)))"
proof -
  have inv: "playback_inv s" unfolding assms using playback_init by (rule playback_run)
  then have a: "playing s \<longrightarrow> gameStates1 s \<noteq> []" by (simp add: playback_inv_def)
  have b: "playing (dispatch MiddleButton s) \<longleftrightarrow> gameStates1 s \<noteq> [] \<and> timeStep s < maxStep s"
    if "\<not> playing s"
    using that
    by (simp add: dispatch_def settle_playing onMiddleButton_def onPlayPause_def onRestart_def
        canStepForward_def)
  have c: "dispatch MiddleButton s = s"
    if "\<not> playing s \<and> timeStep s < maxStep s \<and> gameStates1 s = []"
    using inv that by (simp add: play_request_without_lane1)
  have d: "timeStep (dispatch MiddleButton s) = 0 \<and> \<not> playing (dispatch MiddleButton s)"
    if "\<not> timeStep s < maxStep s"
    using that
    by (simp add: dispatch_def settle_frame settle_playing onMiddleButton_def onRestart_def
        canStepForward_def)
  have e: "gameStates1 (dispatch ev s) \<noteq> []
            \<and> ((ev = MiddleButton \<and> timeStep s < maxStep s)
               \<or> (\<exists>k data. ev = Response k data \<and> timeStep (dispatch ev s) = 0))"
    if h: "\<not> playing s \<and> playing (dispatch ev s)"
  proof -
    from inv have "playback_inv (dispatch ev s)" by (rule playback_dispatch)
    with h have "gameStates1 (dispatch ev s) \<noteq> []" by (simp add: playback_inv_def)
    moreover from h have "playing (handle ev s)" by (simp add: dispatch_playing_handle)
    with h have "(ev = MiddleButton \<and> timeStep s < maxStep s)
       \<or> (\<exists>k data. ev = Response k data \<and> timeStep (handle ev s) = 0)"
      by (intro handle_starts_playback) simp_all
    ultimately show ?thesis by (simp add: dispatch_def settle_frame)
  qed
  from a b c d e show ?thesis by blast
qed

theorem play_request_guard_witness:
  "\<not> playing (run [RunNewGame, Response 0 scenario_response, Back] init)
   \<and> gameStates1 (run [RunNewGame, Response 0 scenario_response, Back] init) \<noteq> []
   \<and> timeStep (run [RunNewGame, Response 0 scenario_response, Back] init)
       < maxStep (run [RunNewGame, Response 0 scenario_response, Back] init)
   \<and> playing (dispatch MiddleButton (run [RunNewGame, Response 0 scenario_response, Back] init))
   \<and> gameStates1 (dispatch MiddleButton
        (run [RunNewGame, Response 0 scenario_response, Back] init)) \<noteq> []
   \<and> gameStates1 (run [RunNewGame, Response 0 scenario_response, AddRemoveGrid,
        ReplayGrid2 0] init) = []
   \<and> timeStep (run [RunNewGame, Response 0 scenario_response, AddRemoveGrid, ReplayGrid2 0] init)
       < maxStep (run [RunNewGame, Response 0 scenario_response, AddRemoveGrid, ReplayGrid2 0] init)
   \<and> dispatch MiddleButton
        (run [RunNewGame, Response 0 scenario_response, AddRemoveGrid, ReplayGrid2 0] init)
       = run [RunNewGame, Response 0 scenario_response, AddRemoveGrid, ReplayGrid2 0] init
   \<and> timeStep (run [RunNewGame, Response 0 scenario_response, Forward] init) = 1
   \<and> maxStep (run [RunNewGame, Response 0 scenario_response, Forward] init) = 1
   \<and> timeStep (dispatch MiddleButton
        (run [RunNewGame, Response 0 scenario_response, Forward] init)) = 0
   \<and> \<not> playing (dispatch MiddleButton
        (run [RunNewGame, Response 0 scenario_response, Forward] init))"
proof -
  let ?a = "run [RunNewGame, Response 0 scenario_response, Back] init"
  let ?b = "run [RunNewGame, Response 0 scenario_response, AddRemoveGrid, ReplayGrid2 0] init"
  let ?c = "run [RunNewGame, Response 0 scenario_response, Forward] init"
  have a: "\<not> playing ?a" "gameStates1 ?a \<noteq> []" "timeStep ?a < maxStep ?a"
    by code_simp+
  have b: "\<not> playing ?b" "gameStates1 ?b = []" "timeStep ?b < maxStep ?b"
    by code_simp+
  have c: "timeStep ?c = 1" "maxStep ?c = 1"
    by code_simp+
  show ?thesis
    using a b c
      play_request_guard [of ?a "[RunNewGame, Response 0 scenario_response, Back]" MiddleButton]
      play_request_guard [of ?b
        "[RunNewGame, Response 0 scenario_response, AddRemoveGrid, ReplayGrid2 0]" MiddleButton]
      play_request_guard [of ?c "[RunNewGame, Response 0 scenario_response, Forward]" MiddleButton]
    by simp
qed

section \<open>Controls that clear the board\<close>

lemma resetBoard_frame:
  "agent1 (resetBoard s) = agent1 s" "agent2 (resetBoard s) = agent2 s"
  "eps1 (resetBoard s) = eps1 s" "eps2 (resetBoard s) = eps2 s"
  "seed1 (resetBoard s) = seed1 s" "seed2 (resetBoard s) = seed2 s"
  "gridSize (resetBoard s) = gridSize s" "twoGrids (resetBoard s) = twoGrids s"
  "tableRes (resetBoard s) = tableRes s" "speed (resetBoard s) = speed s"
  by (simp_all add: resetBoard_def)

lemma resetBoard_clears:
  "gameStates1 (resetBoard s) = []" "gameStates2 (resetBoard s) = []"
  "timeStep (resetBoard s) = 0" "playing (resetBoard s) = False"
  by (simp_all add: resetBoard_def)





end
